theory Spec2Isabelle
  imports Main "HOL-Library.AList" "HOL-Library.Sublist"
begin

section \<open>JavaScript values\<close>

text \<open>
  The values that reach \<open>createEnv\<close>: primitives and plain objects. An object is the
  list of its own enumerable data properties in insertion order, each key once, with
  the flag that \<open>Object.freeze\<close> sets. Arrays are objects and are represented as such.
  Strings are \<open>char list\<close>s, numbers are integers.
\<close>

datatype jsval =
    JUndefined
  | JNull
  | JBool bool
  | JNum int
  | JStr string
  | JRef jsobj
and jsobj = JSObj (props: "(string \<times> jsval) list") (frozen: bool)

text \<open>What a call can throw: an \<open>Error\<close> built by this module (it carries only a
  message), the \<open>TypeError\<close> of the language, or whatever the caller's own error handler
  throws.\<close>

datatype 'x exn = Error string | TypeError | Thrown 'x

definition hasOwn :: "jsobj \<Rightarrow> string \<Rightarrow> bool" where
  "hasOwn obj k = (k \<in> set (map fst (props obj)))"

text \<open>\<open>obj[k]\<close>: a missing key reads as \<open>undefined\<close>.\<close>

definition getProp :: "jsobj \<Rightarrow> string \<Rightarrow> jsval" where
  "getProp obj k = (case map_of (props obj) k of Some v \<Rightarrow> v | None \<Rightarrow> JUndefined)"

text \<open>An object whose keys are pairwise different, as every JavaScript object is.\<close>

definition wellFormed :: "jsobj \<Rightarrow> bool" where
  "wellFormed obj = distinct (map fst (props obj))"

subsection \<open>Strings\<close>

text \<open>\<open>key.startsWith(p)\<close>: the first \<open>p.length\<close> characters of the key are \<open>p\<close>.\<close>

definition startsWith :: "string \<Rightarrow> string \<Rightarrow> bool" where
  "startsWith key p = (take (length p) key = p)"

text \<open>\<open>xs.join(sep)\<close>.\<close>

fun join :: "string \<Rightarrow> string list \<Rightarrow> string" where
  "join sep [] = []"
| "join sep [x] = x"
| "join sep (x # y # ys) = x @ sep @ join sep (y # ys)"

text \<open>The decimal digits of a number, as \<open>String(n)\<close> gives them for an index.\<close>

definition digit :: "nat \<Rightarrow> char" where
  "digit d = char_of (48 + d)"

function digits :: "nat \<Rightarrow> string" where
  "digits n = (if n < 10 then [digit n] else digits (n div 10) @ [digit (n mod 10)])"
  by pat_completeness auto
termination
  by (relation "measure id") auto

declare digits.simps [simp del]

definition stringOfNat :: "nat \<Rightarrow> string" where
  "stringOfNat n = digits n"

definition newline :: string where
  "newline = [CHR 0x0A]"

subsection \<open>Object operations\<close>

text \<open>\<open>Object.entries(obj)\<close> on an object.\<close>

definition entries :: "jsobj \<Rightarrow> (string \<times> jsval) list" where
  "entries obj = props obj"

text \<open>Defining the properties of a list of entries on an object under construction, in
  order: a key already there keeps its place and takes the new value, a new key goes to
  the end.\<close>

definition defineAll :: "(string \<times> jsval) list \<Rightarrow> (string \<times> jsval) list \<Rightarrow> (string \<times> jsval) list" where
  "defineAll acc es = foldl (\<lambda>ps (k, v). AList.update k v ps) acc es"

text \<open>\<open>Object.fromEntries(es)\<close>: a new, unfrozen object.\<close>

definition fromEntries :: "(string \<times> jsval) list \<Rightarrow> jsobj" where
  "fromEntries es = JSObj (defineAll [] es) False"

text \<open>The own enumerable properties that a spread \<open>{...v}\<close> copies: none for
  \<open>undefined\<close>, \<open>null\<close>, booleans and numbers, the indexed characters of a string, the
  properties of an object.\<close>

definition ownEnumerable :: "jsval \<Rightarrow> (string \<times> jsval) list" where
  "ownEnumerable v =
     (case v of
        JRef obj \<Rightarrow> props obj
      | JStr s \<Rightarrow> map (\<lambda>i. (stringOfNat i, JStr [s ! i])) [0..<length s]
      | _ \<Rightarrow> [])"

text \<open>\<open>Object.freeze(v)\<close> returns its argument, frozen when it is an object.\<close>

definition freeze :: "jsval \<Rightarrow> jsval" where
  "freeze v = (case v of JRef obj \<Rightarrow> JRef (JSObj (props obj) True) | _ \<Rightarrow> v)"

definition isFrozen :: "jsval \<Rightarrow> bool" where
  "isFrozen v = (case v of JRef obj \<Rightarrow> frozen obj | _ \<Rightarrow> True)"

text \<open>The assignment \<open>v[k] = x\<close> in strict-mode code (module code is always strict): it
  throws a \<open>TypeError\<close> on a frozen object and on a primitive, and otherwise sets the
  property.\<close>

definition assign :: "jsval \<Rightarrow> string \<Rightarrow> jsval \<Rightarrow> 'x exn + jsval" where
  "assign v k x =
     (case v of
        JRef obj \<Rightarrow>
          (if frozen obj then Inl TypeError
           else Inr (JRef (JSObj (AList.update k x (props obj)) False)))
      | _ \<Rightarrow> Inl TypeError)"

section \<open>The schema engine\<close>

text \<open>
  Modelled from the spec: the schema engine (the zod library) is an external
  collaborator of the repository and not part of its sources. The types and functions of
  this section hold what the spec and the test suite say of it: schemas, issues, the
  strict variant of a record schema, and validation.
\<close>

text \<open>
  A field-level error: the path to the offending value (empty for the whole value) and a
  message. The error of a failed validation is the list of its issues.
\<close>

datatype pathseg = Key string | Index nat

record issue =
  path :: "pathseg list"
  message :: string

type_synonym zodError = "issue list"

text \<open>The validator of one field: from the value found under the key (\<open>undefined\<close>
  when the key is missing) to its issues, with paths relative to the field, or to the
  parsed value.\<close>

type_synonym validator = "jsval \<Rightarrow> issue list + jsval"

datatype unknownKeys = Strip | Strict | Passthrough

text \<open>
  A schema is a fixed-shape record schema (\<open>ZodObject\<close>: the declared fields in order,
  the policy for undeclared keys, and the text its error map gives the issue that lists
  undeclared keys), or any other schema (a union, an array, a scalar), which stays opaque.
\<close>

datatype schema =
    ZodObject (shape: "(string \<times> validator) list") (unknownKeys: unknownKeys)
      (errorMap: "string list \<Rightarrow> string")
  | ZodOther (parseOther: "jsobj \<Rightarrow> issue list + jsval")

text \<open>\<open>schema instanceof z.ZodObject\<close>.\<close>

definition isZodObject :: "schema \<Rightarrow> bool" where
  "isZodObject sch = (case sch of ZodObject _ _ _ \<Rightarrow> True | ZodOther _ \<Rightarrow> False)"

text \<open>\<open>schema.strict()\<close>, called on record schemas only.\<close>

definition strict_variant :: "schema \<Rightarrow> schema" where
  "strict_variant sch =
     (case sch of ZodObject sh _ em \<Rightarrow> ZodObject sh Strict em | ZodOther f \<Rightarrow> ZodOther f)"

definition under :: "string \<Rightarrow> issue \<Rightarrow> issue" where
  "under k i = i\<lparr>path := Key k # path i\<rparr>"

text \<open>The keys of the input that the shape does not declare, in the input's order.\<close>

definition extraKeys :: "(string \<times> validator) list \<Rightarrow> jsobj \<Rightarrow> string list" where
  "extraKeys sh inp = filter (\<lambda>k. k \<notin> set (map fst sh)) (map fst (props inp))"

definition fieldResults :: "(string \<times> validator) list \<Rightarrow> jsobj \<Rightarrow> (string \<times> (issue list + jsval)) list" where
  "fieldResults sh inp = map (\<lambda>(k, f). (k, f (getProp inp k))) sh"

definition fieldIssues :: "(string \<times> (issue list + jsval)) list \<Rightarrow> issue list" where
  "fieldIssues rs =
     concat (map (\<lambda>(k, r). case r of Inl errs \<Rightarrow> map (under k) errs | Inr _ \<Rightarrow> []) rs)"

definition fieldValues :: "jsobj \<Rightarrow> (string \<times> (issue list + jsval)) list \<Rightarrow> (string \<times> jsval) list" where
  "fieldValues inp rs =
     concat (map (\<lambda>(k, r). case r of
                     Inl _ \<Rightarrow> []
                   | Inr v \<Rightarrow> if v \<noteq> JUndefined \<or> hasOwn inp k then [(k, v)] else []) rs)"

text \<open>
  Modelled from the spec: \<open>schema.safeParse(input)\<close> of the zod library, the spec's
  \<open>validate(schema, input) -> Result<Value, ErrorList>\<close>. A record schema validates
  every declared field and reports the issues of all of them, each under its key; its
  strict variant additionally fails, with one issue at the root, when the input
  has a key the schema does not declare; otherwise undeclared keys are dropped or passed
  through, as the schema says. A successful validation gives a new object with the
  parsed fields; a field parsed to \<open>undefined\<close> that the input does not have is left out.
\<close>

definition safeParse :: "schema \<Rightarrow> jsobj \<Rightarrow> issue list + jsval" where
  "safeParse sch inp =
     (case sch of
        ZodOther f \<Rightarrow> f inp
      | ZodObject sh uk em \<Rightarrow>
          (let extra = extraKeys sh inp;
               rs = fieldResults sh inp;
               unrecognized =
                 (if uk = Strict \<and> extra \<noteq> []
                  then [\<lparr>path = [], message = em extra\<rparr>] else []);
               passed =
                 (if uk = Passthrough then map (\<lambda>k. (k, getProp inp k)) extra else [])
           in if list_ex (\<lambda>(k, r). isl r) rs \<or> unrecognized \<noteq> []
              then Inl (fieldIssues rs @ unrecognized)
              else Inr (JRef (JSObj (fieldValues inp rs @ passed) False))))"

section \<open>The host\<close>

text \<open>
  The ambient state a call reads: the global \<open>window\<close> (\<open>None\<close> when there is no such
  global), \<open>process.env\<close> and \<open>import.meta.env\<close> (\<open>None\<close> when \<open>process\<close>, respectively
  \<open>import.meta\<close>, is undefined or has no \<open>env\<close>).
\<close>

record host =
  window :: "jsval option"
  processEnv :: "jsobj option"
  importMetaEnv :: "jsobj option"

definition getDefaultEnvSource :: "host \<Rightarrow> jsobj" where
  "getDefaultEnvSource h =
     (case processEnv h of
        Some e \<Rightarrow> e
      | None \<Rightarrow> (case importMetaEnv h of Some e \<Rightarrow> e | None \<Rightarrow> JSObj [] False))"

definition isClientSide :: "host \<Rightarrow> bool" where
  "isClientSide h =
     (case window h of None \<Rightarrow> False | Some w \<Rightarrow> w \<noteq> JUndefined \<and> w \<noteq> JNull)"

section \<open>\<open>createEnv\<close>\<close>

text \<open>
  The custom error handler is the caller's code: it receives the error and may change
  the caller's own state \<open>'s\<close>; it is declared never to return, so it throws some \<open>'x\<close>,
  but nothing stops it from returning a value.
\<close>

type_synonym ('s, 'x) handler = "zodError \<Rightarrow> 's \<Rightarrow> ('x + jsval) \<times> 's"

text \<open>The options of \<open>createEnv\<close>; \<open>None\<close> is an option left out (\<open>undefined\<close>).\<close>

record ('s, 'x) createEnvOptions =
  schema :: schema
  runtimeEnv :: "jsobj option"
  strict :: "bool option"
  skipValidation :: "bool option"
  onError :: "('s, 'x) handler option"
  envSource :: "jsobj option"
  clientPrefix :: "string option"
  isServer :: "bool option"

definition securityMessage :: string where
  "securityMessage =
     ''Attempted to access server-only environment variables on the client. '' @
     ''This is a security risk. Make sure server env is not imported in client code.''"

definition invalidHeader :: string where
  "invalidHeader = ''Invalid environment variables:''"

definition defaultFormatZodError :: "zodError \<Rightarrow> string" where
  "defaultFormatZodError error =
     join newline
       (map (\<lambda>i. (if length (path i) \<noteq> 0
                   then join ''.''
                          (map (\<lambda>seg. case seg of Key k \<Rightarrow> k | Index n \<Rightarrow> stringOfNat n)
                             (path i))
                   else ''(root)'') @ '': '' @ message i)
          error)"

text \<open>The guard: \<open>isServer === true && isClientSide()\<close>.\<close>

definition guardViolated :: "host \<Rightarrow> ('s, 'x) createEnvOptions \<Rightarrow> bool" where
  "guardViolated h opts = (isServer opts = Some True \<and> isClientSide h)"

text \<open>\<open>source = runtimeEnv ?? envSource ?? getDefaultEnvSource()\<close>.\<close>

definition source :: "host \<Rightarrow> ('s, 'x) createEnvOptions \<Rightarrow> jsobj" where
  "source h opts =
     (case runtimeEnv opts of
        Some r \<Rightarrow> r
      | None \<Rightarrow> (case envSource opts of Some e \<Rightarrow> e | None \<Rightarrow> getDefaultEnvSource h))"

text \<open>The client-side filtering: \<open>if (clientPrefix)\<close> holds for a string that is given
  and not empty.\<close>

definition filteredEnv :: "host \<Rightarrow> ('s, 'x) createEnvOptions \<Rightarrow> jsobj" where
  "filteredEnv h opts =
     (case clientPrefix opts of
        None \<Rightarrow> source h opts
      | Some p \<Rightarrow>
          if p \<noteq> [] \<and> (isClientSide h \<or> isServer opts = Some False)
          then fromEntries (filter (\<lambda>(key, _). startsWith key p) (entries (source h opts)))
          else source h opts)"

text \<open>\<open>strict && schema instanceof z.ZodObject ? schema.strict() : schema\<close>, with
  \<open>strict\<close> defaulting to true.\<close>

definition finalSchema :: "('s, 'x) createEnvOptions \<Rightarrow> schema" where
  "finalSchema opts =
     (if (case strict opts of None \<Rightarrow> True | Some b \<Rightarrow> b) \<and> isZodObject (schema opts)
      then strict_variant (schema opts)
      else schema opts)"

text \<open>What follows \<open>safeParse\<close>: on failure the handler's outcome when there is a handler,
  else the generic error; on success the frozen data.\<close>

definition deliver ::
  "('s, 'x) createEnvOptions \<Rightarrow> issue list + jsval \<Rightarrow> 's \<Rightarrow> ('x exn + jsval) \<times> 's" where
  "deliver opts parsed s =
     (case parsed of
        Inl error \<Rightarrow>
          (case onError opts of
             Some handler \<Rightarrow>
               (case handler error s of
                  (Inl x, s') \<Rightarrow> (Inl (Thrown x), s')
                | (Inr v, s') \<Rightarrow> (Inr v, s'))
           | None \<Rightarrow> (Inl (Error (invalidHeader @ newline @ defaultFormatZodError error)), s))
      | Inr data \<Rightarrow> (Inr (freeze data), s))"

definition createEnv ::
  "host \<Rightarrow> ('s, 'x) createEnvOptions \<Rightarrow> 's \<Rightarrow> ('x exn + jsval) \<times> 's" where
  "createEnv h opts s =
     (if guardViolated h opts then (Inl (Error securityMessage), s)
      else if skipValidation opts = Some True then (Inr (JRef (filteredEnv h opts)), s)
      else deliver opts (safeParse (finalSchema opts) (filteredEnv h opts)) s)"

section \<open>\<open>createSplitEnv\<close>\<close>

record ('s, 'x) createSplitEnvOptions =
  server :: schema
  client :: schema
  splitRuntimeEnv :: jsobj
  splitClientPrefix :: string
  splitSkipValidation :: "bool option"
  splitOnError :: "('s, 'x) handler option"

text \<open>The options of the two calls of \<open>createEnv\<close>.\<close>

definition clientCall :: "('s, 'x) createSplitEnvOptions \<Rightarrow> ('s, 'x) createEnvOptions" where
  "clientCall opts =
     \<lparr>schema = client opts, runtimeEnv = Some (splitRuntimeEnv opts), strict = None,
      skipValidation = splitSkipValidation opts, onError = splitOnError opts,
      envSource = None, clientPrefix = Some (splitClientPrefix opts), isServer = Some False\<rparr>"

definition serverCall :: "('s, 'x) createSplitEnvOptions \<Rightarrow> ('s, 'x) createEnvOptions" where
  "serverCall opts =
     \<lparr>schema = server opts, runtimeEnv = Some (splitRuntimeEnv opts), strict = None,
      skipValidation = splitSkipValidation opts, onError = splitOnError opts,
      envSource = None, clientPrefix = None, isServer = Some True\<rparr>"

text \<open>The object literal \<open>{ ...a, ...b }\<close>: a new, unfrozen object.\<close>

definition spreadMerge :: "jsval \<Rightarrow> jsval \<Rightarrow> jsval" where
  "spreadMerge a b = JRef (JSObj (defineAll (defineAll [] (ownEnumerable a)) (ownEnumerable b)) False)"

definition createSplitEnv ::
  "host \<Rightarrow> ('s, 'x) createSplitEnvOptions \<Rightarrow> 's \<Rightarrow> ('x exn + jsval) \<times> 's" where
  "createSplitEnv h opts s =
     (let isClient = isClientSide h
      in if isClient then createEnv h (clientCall opts) s
         else
           (case createEnv h (serverCall opts) s of
              (Inl e, s1) \<Rightarrow> (Inl e, s1)
            | (Inr serverEnv, s1) \<Rightarrow>
                (case createEnv h (clientCall opts) s1 of
                   (Inl e, s2) \<Rightarrow> (Inl e, s2)
                 | (Inr clientEnv, s2) \<Rightarrow> (Inr (spreadMerge serverEnv clientEnv), s2))))"

section \<open>Example schemas, sources and hosts\<close>

text \<open>Field validators in the style of the test suite: a required string, an optional
  string, and a number coerced from a string of digits.\<close>

definition zString :: validator where
  "zString v =
     (case v of
        JStr s \<Rightarrow> Inr (JStr s)
      | _ \<Rightarrow> Inl [\<lparr>path = [], message = ''Expected string''\<rparr>])"

definition zOptionalString :: validator where
  "zOptionalString v =
     (case v of
        JUndefined \<Rightarrow> Inr JUndefined
      | JStr s \<Rightarrow> Inr (JStr s)
      | _ \<Rightarrow> Inl [\<lparr>path = [], message = ''Expected string''\<rparr>])"

definition isDigit :: "char \<Rightarrow> bool" where
  "isDigit c = (48 \<le> (of_char c :: nat) \<and> (of_char c :: nat) \<le> 57)"

definition zCoerceNumber :: validator where
  "zCoerceNumber v =
     (case v of
        JNum n \<Rightarrow> Inr (JNum n)
      | JStr s \<Rightarrow>
          if s \<noteq> [] \<and> list_all isDigit s
          then Inr (JNum (foldl (\<lambda>a c. 10 * a + (int (of_char c) - 48)) 0 s))
          else Inl [\<lparr>path = [], message = ''Expected number''\<rparr>]
      | _ \<Rightarrow> Inl [\<lparr>path = [], message = ''Expected number''\<rparr>])"

definition unrecognizedKeys :: "string list \<Rightarrow> string" where
  "unrecognizedKeys ks = ''Unrecognized key(s) in object: '' @ join '', '' ks"

text \<open>\<open>z.object(shape)\<close>: undeclared keys are dropped unless the schema is made strict.\<close>

definition zObject :: "(string \<times> validator) list \<Rightarrow> schema" where
  "zObject sh = ZodObject sh Strip unrecognizedKeys"

text \<open>A server (no \<open>window\<close>) and a browser (\<open>window\<close> is an object), as the test
  utilities set them up.\<close>

definition serverHost :: host where
  "serverHost = \<lparr>window = Some JUndefined, processEnv = None, importMetaEnv = None\<rparr>"

definition browserHost :: host where
  "browserHost = \<lparr>window = Some (JRef (JSObj [] False)), processEnv = None, importMetaEnv = None\<rparr>"

text \<open>The call of the test "filters client vars by prefix" of \<open>createSplitEnv\<close>.\<close>

definition splitExample :: "(nat, string) createSplitEnvOptions" where
  "splitExample =
     \<lparr>server = zObject [(''SECRET_KEY'', zString)],
      client = zObject [(''NEXT_PUBLIC_API'', zString)],
      splitRuntimeEnv =
        JSObj [(''SECRET_KEY'', JStr ''secret''),
               (''NEXT_PUBLIC_API'', JStr ''https://api.example.com'')] False,
      splitClientPrefix = ''NEXT_PUBLIC_'',
      splitSkipValidation = None,
      splitOnError = None\<rparr>"

text \<open>A split configuration whose client schema has one optional field, and a source
  that holds the server's key only.\<close>

definition serverOnlyExample :: "(nat, string) createSplitEnvOptions" where
  "serverOnlyExample =
     \<lparr>server = zObject [(''SECRET'', zString)],
      client = zObject [(''VITE_PUBLIC'', zOptionalString)],
      splitRuntimeEnv = JSObj [(''SECRET'', JStr ''secret'')] False,
      splitClientPrefix = ''VITE_'',
      splitSkipValidation = None,
      splitOnError = None\<rparr>"

text \<open>A handler that counts its calls in the caller's state and throws the messages of
  the issues it was given.\<close>

definition countingHandler :: "(nat, string) handler" where
  "countingHandler error n = (Inl (join ''; '' (map message error)), Suc n)"

text \<open>A client-side call of \<open>createEnv\<close>: one declared key with the prefix, one
  other key in the source.\<close>

definition viteExample :: "(nat, string) createEnvOptions" where
  "viteExample =
     \<lparr>schema = zObject [(''VITE_X'', zString)],
      runtimeEnv = Some (JSObj [(''VITE_X'', JStr ''x''), (''OTHER_Y'', JStr ''y'')] False),
      strict = None,
      skipValidation = None,
      onError = None,
      envSource = None,
      clientPrefix = Some ''VITE_'',
      isServer = None\<rparr>"

text \<open>A call with a numeric field whose value is not a number.\<close>

definition portExample :: "(nat, string) createEnvOptions" where
  "portExample =
     \<lparr>schema = zObject [(''PORT'', zCoerceNumber)],
      runtimeEnv = Some (JSObj [(''PORT'', JStr ''invalid'')] False),
      strict = None,
      skipValidation = None,
      onError = None,
      envSource = None,
      clientPrefix = None,
      isServer = None\<rparr>"

text \<open>A list of origins given as one string, in the style of the test with a transform:
  the string is split at the commas (\<open>s.split(",")\<close>), and every piece must be a URL, here
  any string that is not empty; an issue names the index of the piece that is not.\<close>

fun splitOn :: "char \<Rightarrow> string \<Rightarrow> string list" where
  "splitOn c [] = [[]]"
| "splitOn c (x # xs) =
     (if x = c then [] # splitOn c xs
      else (case splitOn c xs of [] \<Rightarrow> [[x]] | p # ps \<Rightarrow> (x # p) # ps))"

definition zOriginList :: validator where
  "zOriginList v =
     (case v of
        JStr s \<Rightarrow>
          (let pieces = splitOn CHR '','' s;
               bad = filter (\<lambda>i. pieces ! i = []) [0..<length pieces]
           in if bad = []
              then Inr (JRef (JSObj (map (\<lambda>i. (stringOfNat i, JStr (pieces ! i))) [0..<length pieces]) False))
              else Inl (map (\<lambda>i. \<lparr>path = [Index i], message = ''Invalid url''\<rparr>) bad))
      | _ \<Rightarrow> Inl [\<lparr>path = [], message = ''Expected string''\<rparr>])"

text \<open>A call with three fields that all fail: one is missing, one is not a number, and
  the piece at index 10 of the third is empty.\<close>

definition threeFieldExample :: "(nat, string) createEnvOptions" where
  "threeFieldExample =
     \<lparr>schema = zObject [(''DATABASE_URL'', zString), (''PORT'', zCoerceNumber),
                        (''ALLOWED_ORIGINS'', zOriginList)],
      runtimeEnv = Some (JSObj [(''PORT'', JStr ''nope''),
                                (''ALLOWED_ORIGINS'', JStr ''a,b,c,d,e,f,g,h,i,j,,l'')] False),
      strict = None,
      skipValidation = None,
      onError = None,
      envSource = None,
      clientPrefix = None,
      isServer = None\<rparr>"

section \<open>Auxiliary facts\<close>

lemma update_fresh: "k \<notin> set (map fst ps) \<Longrightarrow> AList.update k v ps = ps @ [(k, v)]"
  by (induction ps) auto

lemma defineAll_distinct:
  "distinct (map fst (acc @ es)) \<Longrightarrow> defineAll acc es = acc @ es"
proof (induction es arbitrary: acc)
  case Nil
  then show ?case by (simp add: defineAll_def)
next
  case (Cons e es)
  obtain k v where e: "e = (k, v)" by (cases e)
  from Cons.prems e have fresh: "k \<notin> set (map fst acc)" by auto
  from Cons.prems e have "distinct (map fst ((acc @ [(k, v)]) @ es))" by simp
  then have "defineAll (acc @ [(k, v)]) es = (acc @ [(k, v)]) @ es" by (rule Cons.IH)
  with fresh e show ?case by (simp add: defineAll_def update_fresh)
qed

lemma startsWith_prefix: "startsWith key p = prefix p key"
  unfolding startsWith_def
  by (metis append_eq_conv_conj prefix_def)

lemma invalid_not_security: "invalidHeader @ rest \<noteq> securityMessage"
  by (simp add: invalidHeader_def securityMessage_def)

lemma source_clientPrefix: "source h (opts\<lparr>clientPrefix := p\<rparr>) = source h opts"
  by (simp add: source_def split: option.splits)

lemma finalSchema_clientPrefix: "finalSchema (opts\<lparr>clientPrefix := p\<rparr>) = finalSchema opts"
  by (simp add: finalSchema_def)

lemma deliver_clientPrefix: "deliver (opts\<lparr>clientPrefix := p\<rparr>) = deliver opts"
  by (simp add: deliver_def fun_eq_iff split: sum.splits option.splits)

lemma fieldIssues_member:
  assumes "(k, f) \<in> set sh" and "f (getProp inp k) = Inl errs" and "e \<in> set errs"
  shows "under k e \<in> set (fieldIssues (fieldResults sh inp))"
proof -
  from assms(1,2) have "(k, Inl errs) \<in> set (fieldResults sh inp)"
    by (force simp: fieldResults_def)
  with assms(3) show ?thesis
    by (force simp: fieldIssues_def)
qed

lemma safeParse_object_issues:
  assumes "safeParse (ZodObject sh uk em) inp = Inl issues"
    and "(k, f) \<in> set sh" and "f (getProp inp k) = Inl errs" and "e \<in> set errs"
  shows "under k e \<in> set issues"
proof -
  from assms(1) obtain rest where "issues = fieldIssues (fieldResults sh inp) @ rest"
    by (auto simp: safeParse_def Let_def split: if_splits)
  with fieldIssues_member [OF assms(2-4)] show ?thesis by simp
qed

lemma extraKeys_nonempty:
  "(extraKeys sh inp \<noteq> []) = (\<exists>k \<in> set (map fst (props inp)). k \<notin> set (map fst sh))"
  by (auto simp: extraKeys_def filter_empty_conv)

lemma safeParse_strict_extra:
  assumes "extraKeys sh inp \<noteq> []"
  shows "safeParse (ZodObject sh Strict em) inp =
           Inl (fieldIssues (fieldResults sh inp) @ [\<lparr>path = [], message = em (extraKeys sh inp)\<rparr>])"
  using assms by (simp add: safeParse_def)

lemma safeParse_strict_no_extra:
  assumes "extraKeys sh inp = []"
  shows "safeParse (ZodObject sh Strict em) inp = safeParse (ZodObject sh uk em) inp"
  using assms by (simp add: safeParse_def Let_def)

lemma portExample_parse:
  "safeParse (finalSchema (portExample\<lparr>onError := oe\<rparr>)) (filteredEnv serverHost (portExample\<lparr>onError := oe\<rparr>))
     = Inl [\<lparr>path = [Key ''PORT''], message = ''Expected number''\<rparr>]"
  by (simp add: portExample_def safeParse_def finalSchema_def zObject_def isZodObject_def
      strict_variant_def filteredEnv_def source_def extraKeys_def fieldResults_def getProp_def
      zCoerceNumber_def isDigit_def fieldIssues_def under_def)

lemma viteExample_server_parse:
  "safeParse (ZodObject [(''VITE_X'', zString)] Strict unrecognizedKeys)
      (JSObj [(''VITE_X'', JStr ''x''), (''OTHER_Y'', JStr ''y'')] False)
     = Inl [\<lparr>path = [], message = ''Unrecognized key(s) in object: OTHER_Y''\<rparr>]"
  by (simp add: safeParse_def extraKeys_def fieldResults_def getProp_def zString_def
      fieldIssues_def unrecognizedKeys_def)

lemma viteExample_loose_parse:
  "safeParse (ZodObject [(''VITE_X'', zString)] Strip unrecognizedKeys)
      (JSObj [(''VITE_X'', JStr ''x''), (''OTHER_Y'', JStr ''y'')] False)
     = Inr (JRef (JSObj [(''VITE_X'', JStr ''x'')] False))"
  by (simp add: safeParse_def extraKeys_def fieldResults_def getProp_def zString_def
      fieldValues_def hasOwn_def)

lemma fromEntries_filter:
  assumes "distinct (map fst ps)"
  shows "fromEntries (filter P ps) = JSObj (filter P ps) False"
proof -
  from assms have "distinct (map fst (filter P ps))"
    by (simp add: distinct_map_filter)
  then show ?thesis
    using defineAll_distinct [of "[]" "filter P ps"] by (simp add: fromEntries_def)
qed

lemma startsWith_filter:
  "filter (\<lambda>(key, _). startsWith key p) ps = filter (\<lambda>(k, v). prefix p k) ps"
  by (simp add: startsWith_prefix)

lemma filter_update_other:
  "\<not> P k \<Longrightarrow> filter (\<lambda>(key, _). P key) (AList.update k v ps) = filter (\<lambda>(key, _). P key) ps"
  by (induction ps) auto

lemma filteredEnv_extra:
  assumes "isClientSide h" and "clientPrefix opts = Some p" and "\<not> prefix p k"
    and "props (source h' opts') = AList.update k v (props (source h opts))"
    and "isClientSide h'" and "clientPrefix opts' = Some p"
  shows "filteredEnv h' opts' = filteredEnv h opts"
proof -
  from assms(3) have "p \<noteq> []" by auto
  moreover from assms(3) have "\<not> (\<lambda>key. startsWith key p) k"
    by (simp add: startsWith_prefix)
  ultimately show ?thesis
    using assms(1,2,4,5,6) filter_update_other [of "\<lambda>key. startsWith key p" k v "props (source h opts)"]
    by (simp add: filteredEnv_def entries_def)
qed

lemma viteExample_browser_filtered:
  "filteredEnv browserHost viteExample = JSObj [(''VITE_X'', JStr ''x'')] False"
  by (simp add: filteredEnv_def viteExample_def browserHost_def isClientSide_def source_def
      entries_def startsWith_def fromEntries_def defineAll_def)

lemma viteExample_strict_parse:
  "safeParse (ZodObject [(''VITE_X'', zString)] Strict unrecognizedKeys)
      (JSObj [(''VITE_X'', JStr ''x'')] False)
     = Inr (JRef (JSObj [(''VITE_X'', JStr ''x'')] False))"
  by (simp add: safeParse_def extraKeys_def fieldResults_def getProp_def zString_def
      fieldValues_def hasOwn_def)

lemma viteExample_finalSchema:
  "finalSchema viteExample = ZodObject [(''VITE_X'', zString)] Strict unrecognizedKeys"
  by (simp add: finalSchema_def viteExample_def zObject_def isZodObject_def strict_variant_def)

lemma viteExample_browser_result:
  "createEnv browserHost viteExample 0 = (Inr (JRef (JSObj [(''VITE_X'', JStr ''x'')] True)), 0)"
  by (simp add: createEnv_def guardViolated_def viteExample_finalSchema
      viteExample_browser_filtered viteExample_strict_parse deliver_def freeze_def)
    (simp add: viteExample_def)

lemma map_of_defineAll: "map_of (defineAll acc es) = map_of acc ++ map_of (rev es)"
proof (induction es arbitrary: acc)
  case Nil
  then show ?case by (simp add: defineAll_def)
next
  case (Cons e es)
  obtain k v where e: "e = (k, v)" by (cases e)
  have "map_of (defineAll (AList.update k v acc) es) = map_of (AList.update k v acc) ++ map_of (rev es)"
    using Cons.IH [of "AList.update k v acc"] .
  then show ?case
    by (simp add: e defineAll_def update_conv' map_add_upd_left fun_eq_iff map_add_def split: option.splits)
qed

lemma map_of_rev_distinct: "distinct (map fst xs) \<Longrightarrow> map_of (rev xs) = map_of xs"
proof (induction xs)
  case Nil
  then show ?case by simp
next
  case (Cons e xs)
  obtain k v where e: "e = (k, v)" by (cases e)
  from Cons.prems e have "map_of xs k = None"
    by (simp add: map_of_eq_None_iff)
  with Cons e show ?case
    by (auto simp: fun_eq_iff map_add_def split: option.splits)
qed

lemma getProp_defineAll:
  assumes "distinct (map fst as)" and "distinct (map fst bs)"
  shows "getProp (JSObj (defineAll (defineAll [] as) bs) fz) k =
           (if k \<in> set (map fst bs) then getProp (JSObj bs fz') k else getProp (JSObj as fz'') k)"
proof (cases "map_of bs k")
  case None
  then have "k \<notin> set (map fst bs)"
    by (simp add: map_of_eq_None_iff)
  with None show ?thesis
    using assms by (simp add: getProp_def map_of_defineAll map_of_rev_distinct map_add_def)
next
  case (Some v)
  then have "k \<in> set (map fst bs)"
    by (force dest: map_of_SomeD)
  with Some show ?thesis
    using assms by (simp add: getProp_def map_of_defineAll map_of_rev_distinct map_add_def)
qed

lemma join_concat:
  "join sep xs = (case xs of [] \<Rightarrow> [] | x # ys \<Rightarrow> x @ concat (map (\<lambda>y. sep @ y) ys))"
  by (induction sep xs rule: join.induct) simp_all

lemma of_char_digit: "d < 10 \<Longrightarrow> (of_char (digit d) :: nat) = 48 + d"
  by (simp add: digit_def)

lemma digits_nonempty: "digits n \<noteq> []"
  by (subst digits.simps) simp

lemma digits_range:
  "list_all (\<lambda>c. 48 \<le> (of_char c :: nat) \<and> (of_char c :: nat) \<le> 57) (digits n)"
proof (induction n rule: digits.induct)
  case (1 n)
  show ?case
  proof (cases "n < 10")
    case True
    then show ?thesis
      by (subst digits.simps) (simp add: of_char_digit)
  next
    case False
    with "1" have "list_all (\<lambda>c. 48 \<le> (of_char c :: nat) \<and> (of_char c :: nat) \<le> 57) (digits (n div 10))"
      by simp
    moreover have "(of_char (digit (n mod 10)) :: nat) = 48 + n mod 10"
      by (rule of_char_digit) simp
    ultimately show ?thesis
      using False by (subst digits.simps) simp
  qed
qed

lemma digits_value:
  "foldl (\<lambda>a c. 10 * a + (of_char c - 48)) 0 (digits n) = n"
proof (induction n rule: digits.induct)
  case (1 n)
  show ?case
  proof (cases "n < 10")
    case True
    then show ?thesis
      by (subst digits.simps) (simp add: of_char_digit)
  next
    case False
    with "1" have "foldl (\<lambda>a c. 10 * a + (of_char c - 48)) 0 (digits (n div 10)) = n div 10"
      by simp
    moreover have "(of_char (digit (n mod 10)) :: nat) = 48 + n mod 10"
      by (rule of_char_digit) simp
    ultimately show ?thesis
      using False by (subst digits.simps) simp
  qed
qed

lemma digits_zero: "digits 0 = ''0''"
  by code_simp

lemma digits_leading: "0 < n \<Longrightarrow> hd (digits n) \<noteq> CHR ''0''"
proof (induction n rule: digits.induct)
  case (1 n)
  show ?case
  proof (cases "n < 10")
    case True
    have "(of_char (digit n) :: nat) = 48 + n"
      using True by (rule of_char_digit)
    moreover have "(of_char CHR ''0'' :: nat) = 48" by simp
    ultimately have "digit n \<noteq> CHR ''0''"
      using "1.prems" by (metis add_cancel_right_right less_numeral_extra(3))
    with True show ?thesis
      by (subst digits.simps) simp
  next
    case False
    then have "0 < n div 10" by simp
    with "1.IH" False have "hd (digits (n div 10)) \<noteq> CHR ''0''" by simp
    with False show ?thesis
      by (subst digits.simps) (simp add: digits_nonempty)
  qed
qed


lemma stringOfNat_decimal:
  "(n = 0 \<longrightarrow> stringOfNat n = ''0'')
   \<and> (0 < n \<longrightarrow> hd (stringOfNat n) \<noteq> CHR ''0'')
   \<and> list_all (\<lambda>c. 48 \<le> (of_char c :: nat) \<and> (of_char c :: nat) \<le> 57) (stringOfNat n)
   \<and> foldl (\<lambda>a c. 10 * a + (of_char c - 48)) 0 (stringOfNat n) = n"
  using digits_zero digits_leading [of n] digits_range [of n] digits_value [of n]
  by (simp add: stringOfNat_def)

lemma threeFieldExample_parse:
  "safeParse (finalSchema threeFieldExample) (filteredEnv serverHost threeFieldExample)
       = Inl [\<lparr>path = [Key ''DATABASE_URL''], message = ''Expected string''\<rparr>,
              \<lparr>path = [Key ''PORT''], message = ''Expected number''\<rparr>,
              \<lparr>path = [Key ''ALLOWED_ORIGINS'', Index 10], message = ''Invalid url''\<rparr>]"
  by code_simp


lemma append_singleton: "(@) [c] = (#) c"
  by (simp add: fun_eq_iff)

section \<open>The server-only guard\<close>

text \<open>
  Claim C2. \<open>createEnv\<close> throws the security error exactly when \<open>isServer\<close> is \<open>true\<close>
  and the client probe holds. When it does, nothing else of the call matters: the
  outcome is the same whatever the explicit sources, the host's default sources and the
  prefix are, also with \<open>skipValidation\<close> set, and the caller's state is untouched (no
  handler has run).
\<close>

theorem createEnv_security_guard:
  "((fst (createEnv h opts s) = Inl (Error securityMessage))
      = (isServer opts = Some True \<and> isClientSide h))
   \<and> (isServer opts = Some True \<and> isClientSide h \<longrightarrow>
        createEnv h opts s = (Inl (Error securityMessage), s)
        \<and> createEnv (h\<lparr>processEnv := pe, importMetaEnv := ie\<rparr>)
             (opts\<lparr>runtimeEnv := r, envSource := e, clientPrefix := p,
                   skipValidation := Some True\<rparr>) s
            = (Inl (Error securityMessage), s))"
proof -
  have guard: "createEnv h' opts' s = (Inl (Error securityMessage), s)"
    if "isServer opts' = Some True" "isClientSide h'" for h' opts'
    using that by (simp add: createEnv_def guardViolated_def)
  have other: "fst (createEnv h opts s) \<noteq> Inl (Error securityMessage)"
    if "\<not> (isServer opts = Some True \<and> isClientSide h)"
    using that
    by (auto simp: createEnv_def guardViolated_def deliver_def invalid_not_security
        split: sum.splits option.splits prod.splits)
  show ?thesis
    using guard [of opts h] other
      guard [of "opts\<lparr>runtimeEnv := r, envSource := e, clientPrefix := p,
                       skipValidation := Some True\<rparr>"
                "h\<lparr>processEnv := pe, importMetaEnv := ie\<rparr>"]
    by (auto simp: isClientSide_def)
qed

theorem createEnv_security_guard_witness:
  "isServer (portExample\<lparr>isServer := Some True\<rparr>) = Some True \<and> isClientSide browserHost
   \<and> createEnv browserHost
         (portExample\<lparr>isServer := Some True, skipValidation := Some True\<rparr>) 0
       = (Inl (Error securityMessage), 0)"
  using createEnv_security_guard
    [where opts = "portExample\<lparr>isServer := Some True\<rparr>" and h = browserHost and s = 0
       and pe = "processEnv browserHost" and ie = "importMetaEnv browserHost"
       and r = "runtimeEnv portExample" and e = "envSource portExample"
       and p = "clientPrefix portExample"]
  by (simp add: portExample_def browserHost_def isClientSide_def)

section \<open>Skipping validation\<close>

text \<open>
  Claim C8. With \<open>skipValidation\<close> set and the guard passed, \<open>createEnv\<close> returns the
  source itself, or the new object of its prefixed entries when the filter applies:
  nothing is parsed, coerced, defaulted or frozen, and no error is raised.
\<close>

theorem createEnv_skipValidation:
  assumes "\<not> (isServer opts = Some True \<and> isClientSide h)"
    and "skipValidation opts = Some True"
  shows "createEnv h opts s =
           (Inr (JRef (case clientPrefix opts of
                         None \<Rightarrow> source h opts
                       | Some p \<Rightarrow>
                           if p \<noteq> [] \<and> (isClientSide h \<or> isServer opts = Some False)
                           then JSObj (defineAll []
                                  (filter (\<lambda>(k, v). prefix p k) (props (source h opts)))) False
                           else source h opts)), s)"
  using assms
  by (simp add: createEnv_def guardViolated_def filteredEnv_def fromEntries_def entries_def
      startsWith_prefix split: option.splits)

text \<open>The numeric field of the test: the string \<open>invalid\<close> fails the schema, and comes
  back as it is when validation is skipped.\<close>

theorem createEnv_skipValidation_witness:
  "\<not> (isServer portExample = Some True \<and> isClientSide serverHost)
   \<and> skipValidation (portExample\<lparr>skipValidation := Some True\<rparr>) = Some True
   \<and> createEnv serverHost (portExample\<lparr>skipValidation := Some True\<rparr>) 0
       = (Inr (JRef (JSObj [(''PORT'', JStr ''invalid'')] False)), 0)
   \<and> (\<exists>m. createEnv serverHost portExample 0 = (Inl (Error m), 0))"
proof -
  have g: "\<not> (isServer (portExample\<lparr>skipValidation := Some True\<rparr>) = Some True
              \<and> isClientSide serverHost)"
    by (simp add: portExample_def)
  have k: "skipValidation (portExample\<lparr>skipValidation := Some True\<rparr>) = Some True"
    by simp
  have "createEnv serverHost (portExample\<lparr>skipValidation := Some True\<rparr>) 0
       = (Inr (JRef (JSObj [(''PORT'', JStr ''invalid'')] False)), 0)"
    using createEnv_skipValidation [OF g k, of 0]
    by (simp add: portExample_def source_def)
  moreover have "\<exists>m. createEnv serverHost portExample 0 = (Inl (Error m), 0)"
    by (simp add: createEnv_def guardViolated_def portExample_def serverHost_def isClientSide_def
        deliver_def safeParse_def finalSchema_def zObject_def isZodObject_def strict_variant_def
        filteredEnv_def source_def extraKeys_def fieldResults_def getProp_def zCoerceNumber_def
        isDigit_def)
  ultimately show ?thesis using g by (simp add: portExample_def)
qed

section \<open>Validation failures\<close>

text \<open>
  Claim C6. When validation fails and there is no handler, \<open>createEnv\<close> throws one
  error. Its message is the header \<open>Invalid environment variables:\<close>, a line break, and
  one line for each issue of the failed validation, in order, with a line break between
  two lines and none after the last: the segments of the path with a dot between two of
  them, or \<open>(root)\<close> for the empty path, then a colon and a space, then the issue's message.
  An index in a path is written in decimal: \<open>0\<close> for zero, otherwise digits without a
  leading zero whose value is the index. For a record schema every issue of every failing
  field is among the issues, under the field's key.
\<close>

theorem createEnv_default_error:
  assumes "\<not> (isServer opts = Some True \<and> isClientSide h)"
    and "skipValidation opts \<noteq> Some True"
    and "onError opts = None"
    and "safeParse (finalSchema opts) (filteredEnv h opts) = Inl issues"
  shows "createEnv h opts s =
           (Inl (Error (''Invalid environment variables:'' @ [CHR 0x0A] @
              (case map (\<lambda>i. (if path i = [] then ''(root)''
                               else (case map (\<lambda>seg. case seg of Key k \<Rightarrow> k
                                                     | Index n \<Rightarrow> stringOfNat n) (path i) of
                                       [] \<Rightarrow> []
                                     | t # ts \<Rightarrow> t @ concat (map (\<lambda>u. CHR ''.'' # u) ts)))
                              @ '': '' @ message i) issues of
                 [] \<Rightarrow> []
               | l # ls \<Rightarrow> l @ concat (map (\<lambda>u. CHR 0x0A # u) ls)))), s)
         \<and> (\<forall>n. (n = 0 \<longrightarrow> stringOfNat n = ''0'')
                \<and> (0 < n \<longrightarrow> hd (stringOfNat n) \<noteq> CHR ''0'')
                \<and> list_all (\<lambda>c. 48 \<le> (of_char c :: nat) \<and> (of_char c :: nat) \<le> 57)
                     (stringOfNat n)
                \<and> foldl (\<lambda>a c. 10 * a + (of_char c - 48)) 0 (stringOfNat n) = n)
         \<and> (\<forall>sh uk em k f errs e.
               finalSchema opts = ZodObject sh uk em \<and> (k, f) \<in> set sh
               \<and> f (getProp (filteredEnv h opts) k) = Inl errs \<and> e \<in> set errs
               \<longrightarrow> e\<lparr>path := Key k # path e\<rparr> \<in> set issues)"
proof -
  have dotted: "join ''.'' ts = (case ts of [] \<Rightarrow> [] | t # us \<Rightarrow> t @ concat (map (\<lambda>u. CHR ''.'' # u) us))"
    for ts
    by (simp add: join_concat append_singleton split: list.splits)
  have fmt: "defaultFormatZodError issues =
              (case map (\<lambda>i. (if path i = [] then ''(root)''
                               else (case map (\<lambda>seg. case seg of Key k \<Rightarrow> k
                                                     | Index n \<Rightarrow> stringOfNat n) (path i) of
                                       [] \<Rightarrow> []
                                     | t # ts \<Rightarrow> t @ concat (map (\<lambda>u. CHR ''.'' # u) ts)))
                              @ '': '' @ message i) issues of
                 [] \<Rightarrow> []
               | l # ls \<Rightarrow> l @ concat (map (\<lambda>u. CHR 0x0A # u) ls))"
  proof -
    have "map (\<lambda>i. (if length (path i) \<noteq> 0
                     then join ''.'' (map (\<lambda>seg. case seg of Key k \<Rightarrow> k
                                                | Index n \<Rightarrow> stringOfNat n) (path i))
                     else ''(root)'') @ '': '' @ message i) issues
          = map (\<lambda>i. (if path i = [] then ''(root)''
                       else (case map (\<lambda>seg. case seg of Key k \<Rightarrow> k
                                             | Index n \<Rightarrow> stringOfNat n) (path i) of
                               [] \<Rightarrow> []
                             | t # ts \<Rightarrow> t @ concat (map (\<lambda>u. CHR ''.'' # u) ts)))
                      @ '': '' @ message i) issues"
      by (rule map_cong) (simp_all add: dotted)
    then have "defaultFormatZodError issues =
        join [CHR 0x0A]
          (map (\<lambda>i. (if path i = [] then ''(root)''
                       else (case map (\<lambda>seg. case seg of Key k \<Rightarrow> k
                                             | Index n \<Rightarrow> stringOfNat n) (path i) of
                               [] \<Rightarrow> []
                             | t # ts \<Rightarrow> t @ concat (map (\<lambda>u. CHR ''.'' # u) ts)))
                      @ '': '' @ message i) issues)"
      unfolding defaultFormatZodError_def newline_def by (rule arg_cong)
    then show ?thesis
      by (simp only: join_concat append_singleton)
  qed
  have "\<not> guardViolated h opts"
    using assms(1) by (simp add: guardViolated_def)
  then have "createEnv h opts s =
      (Inl (Error (invalidHeader @ newline @ defaultFormatZodError issues)), s)"
    using assms(2-4) by (simp add: createEnv_def deliver_def)
  then have msg: "createEnv h opts s =
           (Inl (Error (''Invalid environment variables:'' @ [CHR 0x0A] @
              (case map (\<lambda>i. (if path i = [] then ''(root)''
                               else (case map (\<lambda>seg. case seg of Key k \<Rightarrow> k
                                                     | Index n \<Rightarrow> stringOfNat n) (path i) of
                                       [] \<Rightarrow> []
                                     | t # ts \<Rightarrow> t @ concat (map (\<lambda>u. CHR ''.'' # u) ts)))
                              @ '': '' @ message i) issues of
                 [] \<Rightarrow> []
               | l # ls \<Rightarrow> l @ concat (map (\<lambda>u. CHR 0x0A # u) ls)))), s)"
    unfolding fmt by (simp add: invalidHeader_def newline_def)
  have every: "e\<lparr>path := Key k # path e\<rparr> \<in> set issues"
    if "finalSchema opts = ZodObject sh uk em" "(k, f) \<in> set sh"
      "f (getProp (filteredEnv h opts) k) = Inl errs" "e \<in> set errs"
    for sh uk em k f errs e
    using safeParse_object_issues [of sh uk em "filteredEnv h opts" issues k f errs e] that assms(4)
    by (simp add: under_def)
  from msg stringOfNat_decimal every show ?thesis by blast
qed

text \<open>Three failing fields give three lines, and the index 10 is written \<open>10\<close>.\<close>

theorem createEnv_default_error_witness:
  "\<not> (isServer threeFieldExample = Some True \<and> isClientSide serverHost)
   \<and> skipValidation threeFieldExample \<noteq> Some True
   \<and> onError threeFieldExample = None
   \<and> safeParse (finalSchema threeFieldExample) (filteredEnv serverHost threeFieldExample)
       = Inl [\<lparr>path = [Key ''DATABASE_URL''], message = ''Expected string''\<rparr>,
              \<lparr>path = [Key ''PORT''], message = ''Expected number''\<rparr>,
              \<lparr>path = [Key ''ALLOWED_ORIGINS'', Index 10], message = ''Invalid url''\<rparr>]
   \<and> createEnv serverHost threeFieldExample 0
       = (Inl (Error (''Invalid environment variables:'' @ [CHR 0x0A] @
            ''DATABASE_URL: Expected string'' @ [CHR 0x0A] @
            ''PORT: Expected number'' @ [CHR 0x0A] @
            ''ALLOWED_ORIGINS.10: Invalid url'')), 0)"
proof -
  have g: "\<not> (isServer threeFieldExample = Some True \<and> isClientSide serverHost)"
    by (simp add: threeFieldExample_def)
  have k: "skipValidation threeFieldExample \<noteq> Some True"
    by (simp add: threeFieldExample_def)
  have e: "onError threeFieldExample = None"
    by (simp add: threeFieldExample_def)
  note p = threeFieldExample_parse
  have ten: "stringOfNat 10 = ''10''"
    by code_simp
  show ?thesis
    using createEnv_default_error [OF g k e p, of 0] g k e p
    by (simp add: ten)
qed

text \<open>
  Claim C9. When validation fails and there is a handler, the outcome of \<open>createEnv\<close> is
  the outcome of one call of the handler on the whole list of issues: what the handler
  throws is thrown, the caller's state is the one that single call leaves, and no error
  of \<open>createEnv\<close>'s own making is raised.
\<close>

theorem createEnv_custom_handler:
  assumes "\<not> (isServer opts = Some True \<and> isClientSide h)"
    and "skipValidation opts \<noteq> Some True"
    and "onError opts = Some handler"
    and "safeParse (finalSchema opts) (filteredEnv h opts) = Inl issues"
  shows "createEnv h opts s =
           (case handler issues s of
              (Inl x, s') \<Rightarrow> (Inl (Thrown x), s')
            | (Inr v, s') \<Rightarrow> (Inr v, s'))
         \<and> snd (createEnv h opts s) = snd (handler issues s)
         \<and> (\<forall>m. fst (createEnv h opts s) \<noteq> Inl (Error m))"
  using assms
  by (auto simp: createEnv_def guardViolated_def deliver_def split: prod.splits sum.splits)

text \<open>The counting handler has run once, and its own error is what comes out.\<close>

theorem createEnv_custom_handler_witness:
  "\<not> (isServer (portExample\<lparr>onError := Some countingHandler\<rparr>) = Some True \<and> isClientSide serverHost)
   \<and> skipValidation (portExample\<lparr>onError := Some countingHandler\<rparr>) \<noteq> Some True
   \<and> onError (portExample\<lparr>onError := Some countingHandler\<rparr>) = Some countingHandler
   \<and> safeParse (finalSchema (portExample\<lparr>onError := Some countingHandler\<rparr>))
        (filteredEnv serverHost (portExample\<lparr>onError := Some countingHandler\<rparr>))
       = Inl [\<lparr>path = [Key ''PORT''], message = ''Expected number''\<rparr>]
   \<and> createEnv serverHost (portExample\<lparr>onError := Some countingHandler\<rparr>) 0
       = (Inl (Thrown ''Expected number''), 1)"
proof -
  let ?o = "portExample\<lparr>onError := Some countingHandler\<rparr>"
  have g: "\<not> (isServer ?o = Some True \<and> isClientSide serverHost)"
    by (simp add: portExample_def)
  have k: "skipValidation ?o \<noteq> Some True"
    by (simp add: portExample_def)
  have e: "onError ?o = Some countingHandler"
    by simp
  note p = portExample_parse [of "Some countingHandler"]
  show ?thesis
    using createEnv_custom_handler [OF g k e p, of 0] g k p
    by (simp add: countingHandler_def)
qed

section \<open>Strictness\<close>

text \<open>
  Claim C7. With \<open>strict\<close> true or left out, and a record schema, \<open>createEnv\<close> validates
  against the schema's strict variant: it fails on every input that has a key the schema
  does not declare, and is the schema itself on every other input. With \<open>strict\<close> false,
  or a schema that is not a record schema, the schema is used as it is.
\<close>

theorem createEnv_strictness:
  assumes "\<not> (isServer opts = Some True \<and> isClientSide h)"
    and "skipValidation opts \<noteq> Some True"
  shows "(strict opts \<noteq> Some False \<and> schema opts = ZodObject sh uk em \<longrightarrow>
            createEnv h opts s = deliver opts (safeParse (ZodObject sh Strict em) (filteredEnv h opts)) s)
         \<and> ((\<exists>k \<in> set (map fst (props inp)). k \<notin> set (map fst sh)) \<longrightarrow>
              isl (safeParse (ZodObject sh Strict em) inp))
         \<and> (\<not> (\<exists>k \<in> set (map fst (props inp)). k \<notin> set (map fst sh)) \<longrightarrow>
              safeParse (ZodObject sh Strict em) inp = safeParse (ZodObject sh uk em) inp)
         \<and> (strict opts = Some False \<or> \<not> isZodObject (schema opts) \<longrightarrow>
              createEnv h opts s = deliver opts (safeParse (schema opts) (filteredEnv h opts)) s)"
proof -
  have "\<not> guardViolated h opts"
    using assms(1) by (simp add: guardViolated_def)
  then have run: "createEnv h opts s = deliver opts (safeParse (finalSchema opts) (filteredEnv h opts)) s"
    using assms(2) by (simp add: createEnv_def)
  have on: "finalSchema opts = ZodObject sh Strict em"
    if "strict opts \<noteq> Some False" "schema opts = ZodObject sh uk em"
    using that by (cases "strict opts") (auto simp: finalSchema_def isZodObject_def strict_variant_def)
  have off: "finalSchema opts = schema opts"
    if "strict opts = Some False \<or> \<not> isZodObject (schema opts)"
    using that by (auto simp: finalSchema_def)
  have fails: "isl (safeParse (ZodObject sh Strict em) inp)"
    if "\<exists>k \<in> set (map fst (props inp)). k \<notin> set (map fst sh)"
    using that safeParse_strict_extra [of sh inp em] by (simp add: extraKeys_nonempty)
  have same: "safeParse (ZodObject sh Strict em) inp = safeParse (ZodObject sh uk em) inp"
    if "\<not> (\<exists>k \<in> set (map fst (props inp)). k \<notin> set (map fst sh))"
    using that safeParse_strict_no_extra [of sh inp em uk] extraKeys_nonempty [of sh inp] by blast
  show ?thesis
    using run on off fails same by metis
qed

text \<open>On the server the undeclared key fails the default strict validation, and passes
  with \<open>strict: false\<close>.\<close>

theorem createEnv_strictness_witness:
  "\<not> (isServer viteExample = Some True \<and> isClientSide serverHost)
   \<and> skipValidation viteExample \<noteq> Some True
   \<and> strict viteExample \<noteq> Some False
   \<and> schema viteExample = ZodObject [(''VITE_X'', zString)] Strip unrecognizedKeys
   \<and> createEnv serverHost viteExample 0
       = (Inl (Error (''Invalid environment variables:'' @ [CHR 0x0A] @
                      ''(root): Unrecognized key(s) in object: OTHER_Y'')), 0)
   \<and> createEnv serverHost (viteExample\<lparr>strict := Some False\<rparr>) 0
       = (Inr (JRef (JSObj [(''VITE_X'', JStr ''x'')] True)), 0)"
proof -
  have g: "\<not> (isServer viteExample = Some True \<and> isClientSide serverHost)"
    by (simp add: viteExample_def)
  have k: "skipValidation viteExample \<noteq> Some True"
    by (simp add: viteExample_def)
  have g': "\<not> (isServer (viteExample\<lparr>strict := Some False\<rparr>) = Some True \<and> isClientSide serverHost)"
    by (simp add: viteExample_def)
  have k': "skipValidation (viteExample\<lparr>strict := Some False\<rparr>) \<noteq> Some True"
    by (simp add: viteExample_def)
  have st: "strict viteExample \<noteq> Some False"
    by (simp add: viteExample_def)
  have sc: "schema viteExample = ZodObject [(''VITE_X'', zString)] Strip unrecognizedKeys"
    by (simp add: viteExample_def zObject_def)
  have fe: "filteredEnv serverHost (viteExample\<lparr>strict := b\<rparr>)
              = JSObj [(''VITE_X'', JStr ''x''), (''OTHER_Y'', JStr ''y'')] False" for b
    by (simp add: filteredEnv_def viteExample_def serverHost_def isClientSide_def source_def)
  have fe0: "filteredEnv serverHost viteExample
              = JSObj [(''VITE_X'', JStr ''x''), (''OTHER_Y'', JStr ''y'')] False"
    by (simp add: filteredEnv_def viteExample_def serverHost_def isClientSide_def source_def)
  have oe: "onError viteExample = None"
    by (simp add: viteExample_def)
  have "createEnv serverHost viteExample 0
          = deliver viteExample (safeParse (ZodObject [(''VITE_X'', zString)] Strict unrecognizedKeys)
              (filteredEnv serverHost viteExample)) 0"
    using createEnv_strictness [OF g k, where sh = "[(''VITE_X'', zString)]" and uk = Strip
          and em = unrecognizedKeys and s = 0 and inp = "JSObj [] False"] st sc
    by blast
  then have strictCase: "createEnv serverHost viteExample 0
       = (Inl (Error (''Invalid environment variables:'' @ [CHR 0x0A] @
                      ''(root): Unrecognized key(s) in object: OTHER_Y'')), 0)"
    by (simp add: fe0 viteExample_server_parse deliver_def oe invalidHeader_def
        newline_def defaultFormatZodError_def)
  have sc': "schema (viteExample\<lparr>strict := Some False\<rparr>)
               = ZodObject [(''VITE_X'', zString)] Strip unrecognizedKeys"
    by (simp add: viteExample_def zObject_def)
  have "createEnv serverHost (viteExample\<lparr>strict := Some False\<rparr>) 0
          = deliver (viteExample\<lparr>strict := Some False\<rparr>)
              (safeParse (schema (viteExample\<lparr>strict := Some False\<rparr>))
                (filteredEnv serverHost (viteExample\<lparr>strict := Some False\<rparr>))) 0"
    using createEnv_strictness [OF g' k', where sh = "[(''VITE_X'', zString)]" and uk = Strip
          and em = unrecognizedKeys and s = 0 and inp = "JSObj [] False"]
    by simp
  then have looseCase: "createEnv serverHost (viteExample\<lparr>strict := Some False\<rparr>) 0
       = (Inr (JRef (JSObj [(''VITE_X'', JStr ''x'')] True)), 0)"
    by (simp add: sc' fe viteExample_loose_parse deliver_def freeze_def)
  show ?thesis
    using g k st sc strictCase looseCase by simp
qed

section \<open>The prefix filter\<close>

text \<open>
  Claim C4. Past the guard, \<open>createEnv\<close> returns (when validation is skipped) or
  validates the mapping \<open>filteredEnv\<close>. When a prefix \<open>p\<close> is given and the client probe
  holds or \<open>isServer\<close> is \<open>false\<close>, its entries are exactly the entries of the source whose
  key has \<open>p\<close> as a prefix, in the source's order, held by a new object when \<open>p\<close> is not
  empty. In every other case it is the source itself, with all its keys.
\<close>

theorem createEnv_prefix_filter:
  assumes "wellFormed (source h opts)"
  shows "(\<not> (isServer opts = Some True \<and> isClientSide h) \<longrightarrow>
            createEnv h opts s =
              (if skipValidation opts = Some True then (Inr (JRef (filteredEnv h opts)), s)
               else deliver opts (safeParse (finalSchema opts) (filteredEnv h opts)) s))
         \<and> (clientPrefix opts = Some p \<and> (isClientSide h \<or> isServer opts = Some False) \<longrightarrow>
              props (filteredEnv h opts) = filter (\<lambda>(k, v). prefix p k) (props (source h opts))
              \<and> (p \<noteq> [] \<longrightarrow> \<not> frozen (filteredEnv h opts)))
         \<and> (clientPrefix opts = None \<or> clientPrefix opts = Some []
              \<or> \<not> (isClientSide h \<or> isServer opts = Some False) \<longrightarrow>
              filteredEnv h opts = source h opts)"
proof -
  have run: "createEnv h opts s =
              (if skipValidation opts = Some True then (Inr (JRef (filteredEnv h opts)), s)
               else deliver opts (safeParse (finalSchema opts) (filteredEnv h opts)) s)"
    if "\<not> (isServer opts = Some True \<and> isClientSide h)"
  proof -
    from that have "\<not> guardViolated h opts" by (simp add: guardViolated_def)
    then show ?thesis by (simp add: createEnv_def)
  qed
  have d: "distinct (map fst (props (source h opts)))"
    using assms by (simp add: wellFormed_def)
  have applied: "filteredEnv h opts = JSObj (filter (\<lambda>(k, v). prefix p k) (props (source h opts))) False"
    if "clientPrefix opts = Some p" "isClientSide h \<or> isServer opts = Some False" "p \<noteq> []"
    using that fromEntries_filter [OF d]
    by (simp add: filteredEnv_def entries_def startsWith_filter)
  have empty: "filteredEnv h opts = source h opts" if "clientPrefix opts = Some []"
    using that by (simp add: filteredEnv_def)
  have "props (filteredEnv h opts) = filter (\<lambda>(k, v). prefix p k) (props (source h opts))
        \<and> (p \<noteq> [] \<longrightarrow> \<not> frozen (filteredEnv h opts))"
    if "clientPrefix opts = Some p" "isClientSide h \<or> isServer opts = Some False"
  proof (cases "p = []")
    case True
    with that empty show ?thesis by simp
  next
    case False
    with that applied show ?thesis by simp
  qed
  moreover have "filteredEnv h opts = source h opts"
    if "clientPrefix opts = None \<or> clientPrefix opts = Some []
        \<or> \<not> (isClientSide h \<or> isServer opts = Some False)"
    using that by (auto simp: filteredEnv_def split: option.splits)
  ultimately show ?thesis using run by blast
qed

text \<open>In the browser only the prefixed key reaches the schema.\<close>

theorem createEnv_prefix_filter_witness:
  "wellFormed (source browserHost viteExample)
   \<and> \<not> (isServer viteExample = Some True \<and> isClientSide browserHost)
   \<and> clientPrefix viteExample = Some ''VITE_''
   \<and> (isClientSide browserHost \<or> isServer viteExample = Some False)
   \<and> props (filteredEnv browserHost viteExample) = [(''VITE_X'', JStr ''x'')]
   \<and> createEnv browserHost viteExample 0 = (Inr (JRef (JSObj [(''VITE_X'', JStr ''x'')] True)), 0)"
proof -
  have w: "wellFormed (source browserHost viteExample)"
    by (simp add: wellFormed_def source_def viteExample_def)
  have g: "\<not> (isServer viteExample = Some True \<and> isClientSide browserHost)"
    by (simp add: viteExample_def)
  have c: "clientPrefix viteExample = Some ''VITE_''"
    by (simp add: viteExample_def)
  have b: "isClientSide browserHost"
    by (simp add: browserHost_def isClientSide_def)
  have src: "props (source browserHost viteExample)
               = [(''VITE_X'', JStr ''x''), (''OTHER_Y'', JStr ''y'')]"
    by (simp add: source_def viteExample_def)
  have k: "skipValidation viteExample \<noteq> Some True"
    by (simp add: viteExample_def)
  note T = createEnv_prefix_filter [OF w, where s = 0 and p = "''VITE_''"]
  from T c b have "props (filteredEnv browserHost viteExample)
      = filter (\<lambda>(k, v). prefix ''VITE_'' k) (props (source browserHost viteExample))"
    by blast
  then have f: "props (filteredEnv browserHost viteExample) = [(''VITE_X'', JStr ''x'')]"
    by (simp add: src)
  from T g k have "createEnv browserHost viteExample 0
      = deliver viteExample (safeParse (finalSchema viteExample) (filteredEnv browserHost viteExample)) 0"
    by simp
  then have "createEnv browserHost viteExample 0
      = (Inr (JRef (JSObj [(''VITE_X'', JStr ''x'')] True)), 0)"
    by (simp add: viteExample_finalSchema viteExample_browser_filtered viteExample_strict_parse
        deliver_def freeze_def)
  with w g c b f show ?thesis by simp
qed

text \<open>
  Claim C5. In a client context with a prefix \<open>p\<close>, a source that has one more entry,
  under a key that does not start with \<open>p\<close>, gives the same outcome of \<open>createEnv\<close>,
  whatever the strictness and wherever the source comes from (\<open>runtimeEnv\<close>,
  \<open>envSource\<close> or the host): the entry is gone before the schema sees the mapping.
\<close>

theorem createEnv_extra_key_filtered:
  assumes "isClientSide h" and "isClientSide h'"
    and "clientPrefix opts = Some p" and "\<not> prefix p k"
    and "opts' = opts\<lparr>runtimeEnv := r, envSource := e\<rparr>"
    and "props (source h' opts') = AList.update k v (props (source h opts))"
  shows "createEnv h' opts' s = createEnv h opts s"
proof -
  have p': "clientPrefix opts' = Some p"
    using assms(3,5) by simp
  have fe: "filteredEnv h' opts' = filteredEnv h opts"
    using assms(1,3,4,6,2) p' by (rule filteredEnv_extra)
  have g: "guardViolated h' opts' = guardViolated h opts"
    using assms(1,2,5) by (simp add: guardViolated_def)
  have sk: "skipValidation opts' = skipValidation opts"
    using assms(5) by simp
  have fs: "finalSchema opts' = finalSchema opts"
    using assms(5) by (simp add: finalSchema_def)
  have dl: "deliver opts' = deliver opts"
    using assms(5) by (simp add: deliver_def fun_eq_iff split: sum.splits option.splits)
  show ?thesis
    by (simp add: createEnv_def fe g sk fs dl)
qed

text \<open>The source of the test, with and without \<open>OTHER_Y\<close>, under the default strict
  mode.\<close>

theorem createEnv_extra_key_filtered_witness:
  "isClientSide browserHost \<and> clientPrefix viteExample = Some ''VITE_''
   \<and> \<not> prefix ''VITE_'' ''OTHER_Y''
   \<and> props (source browserHost viteExample)
       = AList.update ''OTHER_Y'' (JStr ''y'') [(''VITE_X'', JStr ''x'')]
   \<and> createEnv browserHost
        (viteExample\<lparr>runtimeEnv := Some (JSObj [(''VITE_X'', JStr ''x'')] False)\<rparr>) 0
       = createEnv browserHost viteExample 0
   \<and> createEnv browserHost viteExample 0
       = (Inr (JRef (JSObj [(''VITE_X'', JStr ''x'')] True)), 0)"
proof -
  let ?small = "viteExample\<lparr>runtimeEnv := Some (JSObj [(''VITE_X'', JStr ''x'')] False)\<rparr>"
  have b: "isClientSide browserHost"
    by (simp add: browserHost_def isClientSide_def)
  have c: "clientPrefix ?small = Some ''VITE_''"
    by (simp add: viteExample_def)
  have n: "\<not> prefix ''VITE_'' ''OTHER_Y''"
    by simp
  have o: "viteExample = ?small\<lparr>runtimeEnv := runtimeEnv viteExample, envSource := envSource viteExample\<rparr>"
    by (simp add: viteExample_def)
  have u: "props (source browserHost viteExample)
       = AList.update ''OTHER_Y'' (JStr ''y'') (props (source browserHost ?small))"
    by (simp add: source_def viteExample_def)
  have "createEnv browserHost viteExample 0 = createEnv browserHost ?small 0"
    using b b c n o u by (rule createEnv_extra_key_filtered)
  moreover have "props (source browserHost ?small) = [(''VITE_X'', JStr ''x'')]"
    by (simp add: source_def)
  ultimately show ?thesis
    using b c n u viteExample_browser_result by simp
qed

text \<open>
  Claim C10. An empty \<open>clientPrefix\<close> filters nothing in any context: the mapping that
  is validated is the source, and the call has the outcome of the same call without a
  prefix.
\<close>

theorem createEnv_empty_prefix:
  assumes "clientPrefix opts = Some []"
  shows "filteredEnv h opts = source h opts
         \<and> createEnv h opts s = createEnv h (opts\<lparr>clientPrefix := None\<rparr>) s"
proof -
  have fe: "filteredEnv h opts = source h opts"
    using assms by (simp add: filteredEnv_def)
  have fe': "filteredEnv h (opts\<lparr>clientPrefix := None\<rparr>) = source h opts"
    by (simp add: filteredEnv_def source_clientPrefix)
  show ?thesis
    by (simp add: fe fe' createEnv_def guardViolated_def finalSchema_clientPrefix deliver_clientPrefix)
qed

text \<open>In the browser, with the empty prefix, the key \<open>OTHER_Y\<close> stays in the mapping.\<close>

theorem createEnv_empty_prefix_witness:
  "clientPrefix (viteExample\<lparr>clientPrefix := Some []\<rparr>) = Some []
   \<and> isClientSide browserHost
   \<and> filteredEnv browserHost (viteExample\<lparr>clientPrefix := Some []\<rparr>)
       = JSObj [(''VITE_X'', JStr ''x''), (''OTHER_Y'', JStr ''y'')] False
   \<and> createEnv browserHost (viteExample\<lparr>clientPrefix := Some []\<rparr>) 0
       = createEnv browserHost (viteExample\<lparr>clientPrefix := None\<rparr>) 0"
proof -
  have c: "clientPrefix (viteExample\<lparr>clientPrefix := Some []\<rparr>) = Some []"
    by simp
  have b: "isClientSide browserHost"
    by (simp add: browserHost_def isClientSide_def)
  have src: "source browserHost (viteExample\<lparr>clientPrefix := Some []\<rparr>)
       = JSObj [(''VITE_X'', JStr ''x''), (''OTHER_Y'', JStr ''y'')] False"
    by (simp add: source_def viteExample_def)
  show ?thesis
    using createEnv_empty_prefix [OF c, of browserHost 0] b src by simp
qed

section \<open>\<open>createSplitEnv\<close> on the server\<close>

text \<open>What does hold: the values \<open>createEnv\<close> returns after a validation are frozen, and
  an assignment to one throws; \<open>createSplitEnv\<close> in a client context returns such a
  value.\<close>

lemma isFrozen_freeze: "isFrozen (freeze v)"
  by (cases v) (simp_all add: freeze_def isFrozen_def)

lemma assign_freeze: "assign (freeze v) k x = Inl TypeError"
  by (cases v) (simp_all add: freeze_def assign_def)

lemma createEnv_validated_frozen:
  assumes "\<not> (isServer opts = Some True \<and> isClientSide h)"
    and "skipValidation opts \<noteq> Some True"
    and "safeParse (finalSchema opts) (filteredEnv h opts) = Inr data"
  shows "createEnv h opts s = (Inr (freeze data), s) \<and> isFrozen (freeze data)
         \<and> assign (freeze data) k x = Inl TypeError"
proof -
  have "\<not> guardViolated h opts"
    using assms(1) by (simp add: guardViolated_def)
  then have "createEnv h opts s = (Inr (freeze data), s)"
    using assms(2,3) by (simp add: createEnv_def deliver_def)
  then show ?thesis
    by (simp add: isFrozen_freeze assign_freeze)
qed

lemma createSplitEnv_client:
  "isClientSide h \<Longrightarrow> createSplitEnv h opts s = createEnv h (clientCall opts) s"
  by (simp add: createSplitEnv_def)

text \<open>When both validations succeed in a server context, the result is a new object where
  each key reads as in the client's object if that has the key, and as in the server's
  object otherwise.\<close>

lemma createSplitEnv_server_merge:
  assumes "\<not> isClientSide h"
    and "createEnv h (serverCall opts) s = (Inr (JRef a), s1)"
    and "createEnv h (clientCall opts) s1 = (Inr (JRef b), s2)"
    and "wellFormed a" and "wellFormed b"
  shows "\<exists>m. createSplitEnv h opts s = (Inr (JRef m), s2) \<and> \<not> frozen m
           \<and> (\<forall>k. getProp m k = (if hasOwn b k then getProp b k else getProp a k))"
proof -
  let ?m = "JSObj (defineAll (defineAll [] (props a)) (props b)) False"
  have r: "createSplitEnv h opts s = (Inr (JRef ?m), s2)"
    using assms(1-3) by (simp add: createSplitEnv_def spreadMerge_def ownEnumerable_def)
  have "getProp ?m k = (if hasOwn b k then getProp b k else getProp a k)" for k
    using getProp_defineAll [of "props a" "props b" False k "frozen b" "frozen a"] assms(4,5)
    by (simp add: wellFormed_def hasOwn_def)
  with r show ?thesis by auto
qed

text \<open>
  Claim C1. In a server context \<open>createSplitEnv\<close> should return the merge of the two
  validated objects for a combined source that satisfies both schemas. It does not: the
  server schema is validated in strict mode against the whole source, so the client's
  key is an undeclared key, and the call of the test "filters client vars by prefix"
  throws the validation error.
\<close>

theorem createSplitEnv_server_rejects_client_keys:
  "createSplitEnv serverHost splitExample 0
     = (Inl (Error (''Invalid environment variables:'' @ [CHR 0x0A] @
                    ''(root): Unrecognized key(s) in object: NEXT_PUBLIC_API'')), 0)"
  by (simp add: createSplitEnv_def serverHost_def isClientSide_def serverCall_def splitExample_def
      createEnv_def guardViolated_def filteredEnv_def source_def finalSchema_def zObject_def
      isZodObject_def strict_variant_def safeParse_def extraKeys_def fieldResults_def getProp_def
      zString_def fieldIssues_def unrecognizedKeys_def deliver_def invalidHeader_def newline_def
      defaultFormatZodError_def)

text \<open>The same happens for every source with a key the server schema does not declare.\<close>

lemma createSplitEnv_server_undeclared:
  assumes "\<not> isClientSide h"
    and "splitSkipValidation opts \<noteq> Some True"
    and "splitOnError opts = None"
    and "server opts = ZodObject sh uk em"
    and "k \<in> set (map fst (props (splitRuntimeEnv opts)))" and "k \<notin> set (map fst sh)"
  shows "\<exists>m. createSplitEnv h opts s = (Inl (Error m), s)"
proof -
  have fe: "filteredEnv h (serverCall opts) = splitRuntimeEnv opts"
    by (simp add: filteredEnv_def serverCall_def source_def)
  have fs: "finalSchema (serverCall opts) = ZodObject sh Strict em"
    using assms(4) by (simp add: finalSchema_def serverCall_def isZodObject_def strict_variant_def)
  from assms(5,6) have "extraKeys sh (splitRuntimeEnv opts) \<noteq> []"
    by (auto simp: extraKeys_nonempty)
  then have "\<exists>issues. safeParse (finalSchema (serverCall opts)) (filteredEnv h (serverCall opts)) = Inl issues"
    by (simp add: fe fs safeParse_strict_extra)
  then obtain issues where
    "safeParse (finalSchema (serverCall opts)) (filteredEnv h (serverCall opts)) = Inl issues" ..
  moreover have "\<not> guardViolated h (serverCall opts)"
    using assms(1) by (simp add: guardViolated_def)
  moreover have "skipValidation (serverCall opts) \<noteq> Some True" "onError (serverCall opts) = None"
    using assms(2,3) by (simp_all add: serverCall_def)
  ultimately have "\<exists>m. createEnv h (serverCall opts) s = (Inl (Error m), s)"
    by (simp add: createEnv_def deliver_def)
  then show ?thesis
    using assms(1) by (auto simp: createSplitEnv_def)
qed

text \<open>
  Claim C3. The object \<open>createSplitEnv\<close> returns in a server context should be frozen. It
  is not: the merge is a new object literal that nothing freezes, and an assignment to
  one of its fields goes through.
\<close>

theorem createSplitEnv_server_result_not_frozen:
  "createSplitEnv serverHost serverOnlyExample 0
     = (Inr (JRef (JSObj [(''SECRET'', JStr ''secret'')] False)), 0)
   \<and> \<not> isFrozen (JRef (JSObj [(''SECRET'', JStr ''secret'')] False))
   \<and> (assign (JRef (JSObj [(''SECRET'', JStr ''secret'')] False)) ''SECRET'' (JStr ''new-secret'')
         :: string exn + jsval)
       = Inr (JRef (JSObj [(''SECRET'', JStr ''new-secret'')] False))"
  by (simp add: createSplitEnv_def serverHost_def isClientSide_def serverCall_def clientCall_def
      serverOnlyExample_def createEnv_def guardViolated_def filteredEnv_def source_def
      finalSchema_def zObject_def isZodObject_def strict_variant_def safeParse_def extraKeys_def
      fieldResults_def getProp_def zString_def zOptionalString_def fieldIssues_def fieldValues_def
      hasOwn_def deliver_def freeze_def entries_def startsWith_def fromEntries_def defineAll_def
      spreadMerge_def ownEnumerable_def isFrozen_def assign_def)

text \<open>No value returned in a server context is frozen.\<close>

lemma createSplitEnv_server_unfrozen:
  assumes "\<not> isClientSide h" and "createSplitEnv h opts s = (Inr v, s')"
  shows "\<not> isFrozen v"
  using assms
  by (auto simp: createSplitEnv_def spreadMerge_def isFrozen_def split: prod.splits sum.splits)

end
